theory Spec2Isabelle
  imports Main "HOL-Library.Sublist" "HOL-Library.AList"
begin

section \<open>The OneDrive to S3 synchronisation script\<close>

text \<open>
  A shallow embedding of \<^verbatim>\<open>onedrive_to_aws_sync.py\<close>. The script reads the
  Microsoft Graph delta feed of a drive page by page, keeps the relevant records in a
  dictionary keyed by item id, saves the feed's delta link in the S3 bucket, and then
  downloads every changed file and uploads it, with its metadata, to the bucket.

  Everything outside the script (the Graph endpoints, the token endpoint, the bucket and
  the local \<^verbatim>\<open>/tmp\<close> folder) is a parameter: what an endpoint answers,
  and whether an operation raises, is read from an environment at the moment of the
  call. Every such call is recorded in a trace, and the moment of a call is the length
  of the trace before it.
\<close>

subsection \<open>Exceptions\<close>

text \<open>
  The exception classes the script can meet. \<open>HTTPError\<close> is the one class
  \<^verbatim>\<open>delta_gather\<close> catches; \<open>OtherError\<close> stands for every other class an
  external call may raise (connection errors, JSON decoding errors, client errors of the
  bucket). \<open>RecursionError\<close> is what the interpreter raises when the call stack of the
  recursive page walk is used up.
\<close>

datatype exn =
    HTTPError string
  | KeyError string
  | FileNotFoundError string
  | UnboundLocalError string
  | RecursionError
  | OtherError string

subsection \<open>Feed records and pages\<close>

text \<open>
  A record of the feed is a JSON object. The script reads its keys \<^verbatim>\<open>id\<close>,
  \<^verbatim>\<open>name\<close>, \<^verbatim>\<open>parentReference\<close> and tests for the key
  \<^verbatim>\<open>file\<close> (\<open>has_file\<close>); inside \<^verbatim>\<open>parentReference\<close> it reads
  \<^verbatim>\<open>driveId\<close>, tests for \<^verbatim>\<open>path\<close>, and adds
  \<^verbatim>\<open>path_relative\<close>. The keys \<^verbatim>\<open>id\<close>, \<^verbatim>\<open>name\<close> and
  \<^verbatim>\<open>driveId\<close> belong to every record of the feed; the others may be absent.
  A string is the list of its characters.
\<close>

record parent_ref =
  driveId :: string
  path :: "string option"
  path_relative :: "string option"

record item =
  item_id :: string
  name :: string
  parentReference :: "parent_ref option"
  has_file :: bool

text \<open>
  A page of the feed: the key \<^verbatim>\<open>value\<close> (the records) and the optional keys
  \<^verbatim>\<open>@odata.nextLink\<close> and \<^verbatim>\<open>@odata.deltaLink\<close>. A response without
  \<^verbatim>\<open>value\<close> (an error body) has \<open>page_value = None\<close>.
\<close>

record page =
  page_value :: "item list option"
  nextLink :: "string option"
  deltaLink :: "string option"

text \<open>The dictionary \<^verbatim>\<open>change_array\<close>: item id to record, in insertion order.\<close>

type_synonym change_array = "(string \<times> item) list"

text \<open>The settings the script reads from \<^verbatim>\<open>os.environ\<close>.\<close>

record config =
  target_folder :: string
  target_driveID :: string
  driveId_prod :: string

subsection \<open>The outside world\<close>

text \<open>What a file or a bucket object holds.\<close>

datatype blob =
    Bytes string
  | CursorJson string
  | ItemJson item

datatype event =
    Print string
  | PrintExn exn
  | TokenRequest
  | GetPage string string
  | GetContent string string
  | WriteFile string
  | RemoveFile string
  | S3Upload string string
  | S3Download string string

record world =
  trace :: "event list"
  files :: "string \<rightharpoonup> blob"
  bucket :: "string \<rightharpoonup> blob"

text \<open>
  The environment. \<open>feed\<close> is the page the delta endpoint serves at a URL and
  \<open>content\<close> the bytes the content endpoint serves; the \<open>_fault\<close> fields say
  whether the call made at a moment raises, and with what. \<open>token_resp\<close> is the answer
  of the token endpoint at a moment.
\<close>

record env =
  feed :: "string \<Rightarrow> page"
  page_fault :: "nat \<Rightarrow> string \<Rightarrow> exn option"
  content :: "string \<Rightarrow> string"
  content_fault :: "nat \<Rightarrow> string \<Rightarrow> exn option"
  token_resp :: "nat \<Rightarrow> exn + string"
  write_fault :: "nat \<Rightarrow> string \<Rightarrow> exn option"
  remove_fault :: "nat \<Rightarrow> string \<Rightarrow> exn option"
  s3_fault :: "nat \<Rightarrow> string \<Rightarrow> exn option"

definition now :: "world \<Rightarrow> nat" where
  "now w = length (trace w)"

definition emit :: "event \<Rightarrow> world \<Rightarrow> world" where
  "emit e w = w\<lparr>trace := trace w @ [e]\<rparr>"

definition newline :: string where
  "newline = [CHR 0x0A]"

text \<open>\<^verbatim>\<open>json.loads(requests.get(url, headers=headers).content)\<close> on the delta feed.\<close>

definition get_page :: "env \<Rightarrow> string \<Rightarrow> string \<Rightarrow> world \<Rightarrow> (exn + page) \<times> world" where
  "get_page en url headers w =
     (case page_fault en (now w) url of
        Some e \<Rightarrow> (Inl e, emit (GetPage url headers) w)
      | None \<Rightarrow> (Inr (feed en url), emit (GetPage url headers) w))"

text \<open>\<^verbatim>\<open>requests.get(onedrive_url, headers=headers)\<close> on an item's content.\<close>

definition get_content :: "env \<Rightarrow> string \<Rightarrow> string \<Rightarrow> world \<Rightarrow> (exn + string) \<times> world" where
  "get_content en url headers w =
     (case content_fault en (now w) url of
        Some e \<Rightarrow> (Inl e, emit (GetContent url headers) w)
      | None \<Rightarrow> (Inr (content en url), emit (GetContent url headers) w))"

text \<open>\<^verbatim>\<open>token_gains\<close>: one request to the token endpoint.\<close>

definition token_gains :: "env \<Rightarrow> world \<Rightarrow> (exn + string) \<times> world" where
  "token_gains en w = (token_resp en (now w), emit TokenRequest w)"

text \<open>Opening a file for writing and writing it.\<close>

definition write_file :: "env \<Rightarrow> string \<Rightarrow> blob \<Rightarrow> world \<Rightarrow> (exn + unit) \<times> world" where
  "write_file en p b w =
     (case write_fault en (now w) p of
        Some e \<Rightarrow> (Inl e, emit (WriteFile p) w)
      | None \<Rightarrow> (Inr (), (emit (WriteFile p) w)\<lparr>files := (files w)(p \<mapsto> b)\<rparr>))"

text \<open>\<^verbatim>\<open>os.remove\<close>: raises when the file is not there.\<close>

definition os_remove :: "env \<Rightarrow> string \<Rightarrow> world \<Rightarrow> (exn + unit) \<times> world" where
  "os_remove en p w =
     (case files w p of
        None \<Rightarrow> (Inl (FileNotFoundError p), emit (RemoveFile p) w)
      | Some b \<Rightarrow>
          (case remove_fault en (now w) p of
             Some e \<Rightarrow> (Inl e, emit (RemoveFile p) w)
           | None \<Rightarrow> (Inr (), (emit (RemoveFile p) w)\<lparr>files := (files w)(p := None)\<rparr>)))"

text \<open>\<^verbatim>\<open>s3.meta.client.upload_file\<close> and \<^verbatim>\<open>download_file\<close>.\<close>

definition upload_file :: "env \<Rightarrow> string \<Rightarrow> string \<Rightarrow> world \<Rightarrow> (exn + unit) \<times> world" where
  "upload_file en filename_local filename_s3 w =
     (case files w filename_local of
        None \<Rightarrow> (Inl (FileNotFoundError filename_local), emit (S3Upload filename_local filename_s3) w)
      | Some b \<Rightarrow>
          (case s3_fault en (now w) filename_s3 of
             Some e \<Rightarrow> (Inl e, emit (S3Upload filename_local filename_s3) w)
           | None \<Rightarrow>
               (Inr (), (emit (S3Upload filename_local filename_s3) w)
                          \<lparr>bucket := (bucket w)(filename_s3 \<mapsto> b)\<rparr>)))"

definition download_file :: "env \<Rightarrow> string \<Rightarrow> string \<Rightarrow> world \<Rightarrow> (exn + unit) \<times> world" where
  "download_file en filename_local filename_s3 w =
     (case bucket w filename_s3 of
        None \<Rightarrow> (Inl (OtherError ''ClientError''), emit (S3Download filename_local filename_s3) w)
      | Some b \<Rightarrow>
          (case s3_fault en (now w) filename_s3 of
             Some e \<Rightarrow> (Inl e, emit (S3Download filename_local filename_s3) w)
           | None \<Rightarrow>
               (Inr (), (emit (S3Download filename_local filename_s3) w)
                          \<lparr>files := (files w)(filename_local \<mapsto> b)\<rparr>)))"

subsection \<open>\<^verbatim>\<open>s3_ops\<close>\<close>

text \<open>
  The session is set up from the environment variables before the \<^verbatim>\<open>try\<close>;
  the settings are taken as present. An action that is neither \<^verbatim>\<open>upload\<close> nor
  \<^verbatim>\<open>download\<close> matches no branch of the \<^verbatim>\<open>if\<close>/\<^verbatim>\<open>elif\<close>.
\<close>

definition s3_error_line :: "string \<Rightarrow> string \<Rightarrow> string" where
  "s3_error_line action filename_local =
     ''Error occured when attempting to '' @ action @ '' the file '' @ filename_local @
     '' to or from the S3 bucket. '' @ newline @ ''Exception details:''"

definition s3_success_line :: "string \<Rightarrow> string \<Rightarrow> string" where
  "s3_success_line action filename_local =
     ''The attempt to '' @ action @ '' the file '' @ filename_local @
     '' to or from the S3 bucket was successful.''"

definition s3_ops :: "env \<Rightarrow> string \<Rightarrow> string \<Rightarrow> string \<Rightarrow> world \<Rightarrow> bool \<times> world" where
  "s3_ops en filename_local filename_s3 action w =
     (case (if action = ''upload'' then upload_file en filename_local filename_s3 w
            else if action = ''download'' then download_file en filename_local filename_s3 w
            else (Inr (), w)) of
        (Inl e, w1) \<Rightarrow>
          (False, emit (PrintExn e) (emit (Print (s3_error_line action filename_local)) w1))
      | (Inr u, w1) \<Rightarrow>
          (True, emit (Print (s3_success_line action filename_local)) w1))"

subsection \<open>\<^verbatim>\<open>onedrive_download\<close>\<close>

definition content_url :: "item \<Rightarrow> string \<Rightarrow> string" where
  "content_url file_metadata drive =
     ''https://graph.microsoft.com/v1.0/drives/'' @ drive @ ''/items/'' @
     item_id file_metadata @ ''/content''"

definition download_error_line :: "item \<Rightarrow> string" where
  "download_error_line file_metadata =
     ''Error occured when attempting to download '' @ name file_metadata @
     '' from OneDrive. '' @ newline @ ''Exception details:''"

definition bearer :: "string \<Rightarrow> string" where
  "bearer aadToken = ''Bearer '' @ aadToken"

text \<open>
  Lines 44 to 58: the content request, and on any exception one new token and one
  second request, which is outside every \<^verbatim>\<open>try\<close>.
\<close>

definition fetch_content :: "env \<Rightarrow> string \<Rightarrow> item \<Rightarrow> string \<Rightarrow> world \<Rightarrow> (exn + string) \<times> world" where
  "fetch_content en headers file_metadata onedrive_url w =
     (case get_content en onedrive_url headers w of
        (Inr c, w1) \<Rightarrow> (Inr c, w1)
      | (Inl e, w1) \<Rightarrow>
          (let w2 = emit (Print ''Acquiring new token then try to download contents again.'')
                      (emit (PrintExn e) (emit (Print (download_error_line file_metadata)) w1))
           in case token_gains en w2 of
                (Inl e2, w3) \<Rightarrow> (Inl e2, w3)
              | (Inr aadToken, w3) \<Rightarrow> get_content en onedrive_url (bearer aadToken) w3))"

definition save_error_line :: string where
  "save_error_line =
     ''Error occured when attempting to save files locally. '' @ newline @ ''Exception details:''"

text \<open>Lines 65 to 75: both files are written inside one \<^verbatim>\<open>try\<close>.\<close>

definition stage :: "env \<Rightarrow> string \<Rightarrow> string \<Rightarrow> item \<Rightarrow> world \<Rightarrow> world" where
  "stage en local_path c file_metadata w =
     (case write_file en local_path (Bytes c) w of
        (Inl e, w1) \<Rightarrow> emit (PrintExn e) (emit (Print save_error_line) w1)
      | (Inr u, w1) \<Rightarrow>
          (case write_file en (local_path @ ''.json'') (ItemJson file_metadata) w1 of
             (Inl e, w2) \<Rightarrow> emit (PrintExn e) (emit (Print save_error_line) w2)
           | (Inr u2, w2) \<Rightarrow> w2))"

definition remove_error_line :: string where
  "remove_error_line =
     ''Error when trying to remove files '' @ newline @ ''Exception details:''"

text \<open>Lines 85 to 90: both removals are inside one \<^verbatim>\<open>try\<close>.\<close>

definition cleanup :: "env \<Rightarrow> string \<Rightarrow> world \<Rightarrow> world" where
  "cleanup en local_path w =
     (case os_remove en local_path w of
        (Inl e, w1) \<Rightarrow> emit (PrintExn e) (emit (Print remove_error_line) w1)
      | (Inr u, w1) \<Rightarrow>
          (case os_remove en (local_path @ ''.json'') w1 of
             (Inl e, w2) \<Rightarrow> emit (PrintExn e) (emit (Print remove_error_line) w2)
           | (Inr u2, w2) \<Rightarrow> w2))"

definition onedrive_download :: "env \<Rightarrow> string \<Rightarrow> item \<Rightarrow> world \<Rightarrow> (exn + unit) \<times> world" where
  "onedrive_download en headers file_metadata w =
     (case parentReference file_metadata of
        None \<Rightarrow> (Inl (KeyError ''parentReference''), w)
      | Some pr \<Rightarrow>
          (case fetch_content en headers file_metadata (content_url file_metadata (driveId pr)) w of
             (Inl e, w1) \<Rightarrow> (Inl e, w1)
           | (Inr c, w1) \<Rightarrow>
               (let local_filename = name file_metadata;
                    local_path = ''/tmp/'' @ local_filename;
                    w2 = stage en local_path c file_metadata w1
                in case path_relative pr of
                     None \<Rightarrow> (Inl (KeyError ''path_relative''), w2)
                   | Some rel \<Rightarrow>
                       (let filename_s3 = rel @ ''/'' @ local_filename;
                            w3 = snd (s3_ops en local_path filename_s3 ''upload'' w2);
                            w4 = snd (s3_ops en (local_path @ ''.json'') (filename_s3 @ ''.json'')
                                        ''upload'' w3)
                        in (Inr (), cleanup en local_path w4)))))"

subsection \<open>\<^verbatim>\<open>delta_gather\<close>\<close>

text \<open>
  Lines 109 to 114, for one record \<open>i\<close>: the relevance filter, the relative path and
  the update of the dictionary. \<^verbatim>\<open>i['parentReference']\<close> raises when the key is
  absent; \<^verbatim>\<open>a in b\<close> on strings is \<^const>\<open>sublist\<close>; \<^verbatim>\<open>s[80:]\<close> is
  \<^term>\<open>drop 80 s\<close>; \<^verbatim>\<open>dict.update\<close> overwrites the value of a key already
  there, in place, and adds a new key at the end (\<^const>\<open>AList.update\<close>).
\<close>

definition gather_record :: "config \<Rightarrow> item \<Rightarrow> change_array \<Rightarrow> exn + change_array" where
  "gather_record cfg i change_array =
     (case parentReference i of
        None \<Rightarrow> Inl (KeyError ''parentReference'')
      | Some pr \<Rightarrow>
          (case path pr of
             None \<Rightarrow> Inr change_array
           | Some p \<Rightarrow>
               if name i = target_folder cfg \<or> sublist (target_driveID cfg) p
               then Inr (AList.update (item_id i)
                           (i\<lparr>parentReference := Some (pr\<lparr>path_relative := Some (drop 80 p)\<rparr>)\<rparr>)
                           change_array)
               else Inr change_array))"

text \<open>The \<^verbatim>\<open>for\<close> loop of lines 107 to 114.\<close>

fun gather_records :: "config \<Rightarrow> item list \<Rightarrow> change_array \<Rightarrow> exn + change_array" where
  "gather_records cfg [] change_array = Inr change_array"
| "gather_records cfg (i # rest) change_array =
     (case gather_record cfg i change_array of
        Inl e \<Rightarrow> Inl e
      | Inr change_array' \<Rightarrow> gather_records cfg rest change_array')"

text \<open>
  Lines 94 to 100: the page request; an \<open>HTTPError\<close> is printed and the request is made
  once more, with the same headers and outside the \<^verbatim>\<open>try\<close>. Any other
  exception is not caught.
\<close>

definition query_error_line :: string where
  "query_error_line =
     ''Error occured when attempting to query deltaLink. '' @ newline @ ''Exception details:''"

definition fetch_page :: "env \<Rightarrow> string \<Rightarrow> string \<Rightarrow> world \<Rightarrow> (exn + page) \<times> world" where
  "fetch_page en url headers w =
     (case get_page en url headers w of
        (Inl (HTTPError m), w1) \<Rightarrow>
          get_page en url headers
            (emit (PrintExn (HTTPError m)) (emit (Print query_error_line) w1))
      | (r, w1) \<Rightarrow> (r, w1))"

text \<open>
  Lines 120 to 133: the delta link is written to \<^verbatim>\<open>/tmp/deltaLink.json\<close>
  (outside every \<^verbatim>\<open>try\<close>) and uploaded; the local file is removed when the
  upload succeeded.
\<close>

definition save_deltaLink :: "env \<Rightarrow> string \<Rightarrow> world \<Rightarrow> (exn + unit) \<times> world" where
  "save_deltaLink en d w =
     (case write_file en ''/tmp/deltaLink.json'' (CursorJson d) w of
        (Inl e, w1) \<Rightarrow> (Inl e, w1)
      | (Inr u, w1) \<Rightarrow>
          (case s3_ops en ''/tmp/deltaLink.json'' ''deltaLink.json'' ''upload'' w1 of
             (True, w2) \<Rightarrow>
               (case os_remove en ''/tmp/deltaLink.json'' w2 of
                  (Inl e, w3) \<Rightarrow> (Inr (), emit (Print ''Error when trying to remove files'') w3)
                | (Inr u2, w3) \<Rightarrow> (Inr (), w3))
           | (False, w2) \<Rightarrow> (Inr (), w2)))"

text \<open>
  The recursive page walk. The first argument is the number of nested calls the
  interpreter's call stack still allows; a call beyond it raises \<open>RecursionError\<close>.
  Everything after the request is inside \<^verbatim>\<open>if len(delta_resp['value'])>0\<close>:
  the loop over the records, the recursive call on the next link, and the saving of the
  delta link.
\<close>

fun delta_gather ::
  "nat \<Rightarrow> env \<Rightarrow> config \<Rightarrow> string \<Rightarrow> string \<Rightarrow> change_array \<Rightarrow> world
     \<Rightarrow> (exn + change_array) \<times> world" where
  "delta_gather 0 en cfg url headers change_array w = (Inl RecursionError, w)"
| "delta_gather (Suc depth) en cfg url headers change_array w =
     (case fetch_page en url headers w of
        (Inl e, w1) \<Rightarrow> (Inl e, w1)
      | (Inr delta_resp, w1) \<Rightarrow>
          (case page_value delta_resp of
             None \<Rightarrow> (Inl (KeyError ''value''), w1)
           | Some records \<Rightarrow>
               if length records > 0 then
                 (case gather_records cfg records change_array of
                    Inl e \<Rightarrow> (Inl e, w1)
                  | Inr ca1 \<Rightarrow>
                      (case (case nextLink delta_resp of
                               None \<Rightarrow> (Inr ca1, w1)
                             | Some next_url \<Rightarrow> delta_gather depth en cfg next_url headers ca1 w1) of
                         (Inl e, w2) \<Rightarrow> (Inl e, w2)
                       | (Inr ca2, w2) \<Rightarrow>
                           (case deltaLink delta_resp of
                              None \<Rightarrow> (Inr ca2, w2)
                            | Some d \<Rightarrow>
                                (case save_deltaLink en d w2 of
                                   (Inl e, w3) \<Rightarrow> (Inl e, w3)
                                 | (Inr u, w3) \<Rightarrow> (Inr ca2, w3)))))
               else (Inr change_array, w1)))"

subsection \<open>\<^verbatim>\<open>main\<close>\<close>

text \<open>What \<^verbatim>\<open>json.load(f)['deltaLink']\<close> gives on a file.\<close>

fun read_deltaLink :: "blob \<Rightarrow> exn + string" where
  "read_deltaLink (CursorJson d) = Inr d"
| "read_deltaLink (ItemJson i) = Inl (KeyError ''deltaLink'')"
| "read_deltaLink (Bytes s) = Inl (OtherError ''JSONDecodeError'')"

definition load_error_line :: string where
  "load_error_line =
     ''Error occured when attempting to download/remove the deltaLink file. '' @ newline @
     ''Exception details:''"

text \<open>
  Lines 187 to 198: the saved delta link replaces the start URL when the download
  succeeded and the file can be read; every exception is printed.
\<close>

definition load_deltaLink :: "env \<Rightarrow> string \<Rightarrow> world \<Rightarrow> string \<times> world" where
  "load_deltaLink en delta_url w =
     (case s3_ops en ''/tmp/deltaLink.json'' ''deltaLink.json'' ''download'' w of
        (False, w1) \<Rightarrow> (delta_url, w1)
      | (True, w1) \<Rightarrow>
          (case files w1 ''/tmp/deltaLink.json'' of
             None \<Rightarrow> (delta_url, w1)
           | Some b \<Rightarrow>
               (case read_deltaLink b of
                  Inl e \<Rightarrow> (delta_url, emit (PrintExn e) (emit (Print load_error_line) w1))
                | Inr d \<Rightarrow>
                    (case os_remove en ''/tmp/deltaLink.json'' w1 of
                       (Inl e, w2) \<Rightarrow> (d, emit (PrintExn e) (emit (Print load_error_line) w2))
                     | (Inr u, w2) \<Rightarrow> (d, w2)))))"

text \<open>Lines 205 to 208: the loop over the dictionary, in its order.\<close>

fun transfer_all :: "env \<Rightarrow> string \<Rightarrow> change_array \<Rightarrow> world \<Rightarrow> (exn + unit) \<times> world" where
  "transfer_all en headers [] w = (Inr (), w)"
| "transfer_all en headers ((key, v) # rest) w =
     (if has_file v then
        (case onedrive_download en headers v w of
           (Inl e, w1) \<Rightarrow> (Inl e, w1)
         | (Inr u, w1) \<Rightarrow> transfer_all en headers rest w1)
      else transfer_all en headers rest w)"

definition token_error_line :: string where
  "token_error_line =
     ''Error occured when attempting to obtain MS token. '' @ newline @ ''Exception details:''"

text \<open>
  \<^verbatim>\<open>main\<close>. When the first token request raises, the exception is printed and
  the next statement reads the unassigned local \<^verbatim>\<open>aadToken\<close>. The first
  argument is the call depth left for \<^verbatim>\<open>delta_gather\<close>.
\<close>

text \<open>Lines 158 to 198: the token, the headers and the URL the page walk starts from.\<close>

definition startup :: "env \<Rightarrow> config \<Rightarrow> world \<Rightarrow> (exn + string \<times> string) \<times> world" where
  "startup en cfg w =
     (case token_gains en (emit (Print ''Script has started.'') w) of
        (Inl e, w1) \<Rightarrow>
          (Inl (UnboundLocalError ''aadToken''),
           emit (PrintExn e) (emit (Print token_error_line) w1))
      | (Inr aadToken, w1) \<Rightarrow>
          (let headers = bearer aadToken;
               start_url = ''https://graph.microsoft.com/v1.0/drives/'' @ driveId_prod cfg @
                           ''/root/delta'';
               (delta_url, w2) = load_deltaLink en start_url w1
           in (Inr (headers, delta_url), w2)))"

definition main :: "nat \<Rightarrow> env \<Rightarrow> config \<Rightarrow> world \<Rightarrow> (exn + unit) \<times> world" where
  "main depth en cfg w =
     (case startup en cfg w of
        (Inl e, w2) \<Rightarrow> (Inl e, w2)
      | (Inr (headers, delta_url), w2) \<Rightarrow>
          (case delta_gather depth en cfg delta_url headers [] w2 of
             (Inl e, w3) \<Rightarrow> (Inl e, w3)
           | (Inr change_array, w3) \<Rightarrow>
               (case transfer_all en headers change_array w3 of
                  (Inl e, w4) \<Rightarrow> (Inl e, w4)
                | (Inr u, w4) \<Rightarrow> (Inr (), emit (Print ''Script exited successfully.'') w4))))"

subsection \<open>The calls of the page walk\<close>

text \<open>
  The recursive call a call of \<^const>\<open>delta_gather\<close> makes, with the world it starts
  in: there is one when the page was fetched, has records, they were gathered without an
  exception, and the page has a next link.
\<close>

definition next_call ::
  "env \<Rightarrow> config \<Rightarrow> string \<Rightarrow> string \<Rightarrow> change_array \<Rightarrow> world
     \<Rightarrow> (string \<times> change_array \<times> world) option" where
  "next_call en cfg url headers change_array w =
     (case fetch_page en url headers w of
        (Inl e, w1) \<Rightarrow> None
      | (Inr delta_resp, w1) \<Rightarrow>
          (case page_value delta_resp of
             None \<Rightarrow> None
           | Some records \<Rightarrow>
               if length records > 0 then
                 (case gather_records cfg records change_array of
                    Inl e \<Rightarrow> None
                  | Inr ca1 \<Rightarrow>
                      (case nextLink delta_resp of
                         None \<Rightarrow> None
                       | Some next_url \<Rightarrow> Some (next_url, ca1, w1)))
               else None))"

text \<open>
  The calls of \<^const>\<open>delta_gather\<close> that one call leads to, itself first, each with
  the call depth left, its URL, its dictionary and the world it starts in.
\<close>

fun walk ::
  "nat \<Rightarrow> env \<Rightarrow> config \<Rightarrow> string \<Rightarrow> string \<Rightarrow> change_array \<Rightarrow> world
     \<Rightarrow> (nat \<times> string \<times> change_array \<times> world) list" where
  "walk 0 en cfg url headers change_array w = [(0, url, change_array, w)]"
| "walk (Suc depth) en cfg url headers change_array w =
     (Suc depth, url, change_array, w) #
     (case next_call en cfg url headers change_array w of
        None \<Rightarrow> []
      | Some (next_url, ca1, w1) \<Rightarrow> walk depth en cfg next_url headers ca1 w1)"

text \<open>
  The records of the pages a call and the calls it leads to read, in the order read.
\<close>

fun traversed ::
  "nat \<Rightarrow> env \<Rightarrow> config \<Rightarrow> string \<Rightarrow> string \<Rightarrow> change_array \<Rightarrow> world \<Rightarrow> item list" where
  "traversed 0 en cfg url headers change_array w = []"
| "traversed (Suc depth) en cfg url headers change_array w =
     (case fetch_page en url headers w of
        (Inl e, w1) \<Rightarrow> []
      | (Inr delta_resp, w1) \<Rightarrow>
          (case page_value delta_resp of
             None \<Rightarrow> []
           | Some records \<Rightarrow>
               records @
               (case next_call en cfg url headers change_array w of
                  None \<Rightarrow> []
                | Some (next_url, ca1, w1) \<Rightarrow> traversed depth en cfg next_url headers ca1 w1)))"

subsection \<open>The relevance filter, in the words of the specification\<close>

text \<open>
  A record is relevant when it carries a parent path and either its name is the target
  folder's or its parent path contains the target drive id.
\<close>

definition spec_relevant :: "config \<Rightarrow> item \<Rightarrow> bool" where
  "spec_relevant cfg i =
     (case parentReference i of
        None \<Rightarrow> False
      | Some pr \<Rightarrow>
          (case path pr of
             None \<Rightarrow> False
           | Some p \<Rightarrow> name i = target_folder cfg \<or> sublist (target_driveID cfg) p))"

text \<open>A record with the relative path added: its parent path without its first 80 characters.\<close>

definition with_relative :: "item \<Rightarrow> item" where
  "with_relative i =
     (case parentReference i of
        None \<Rightarrow> i
      | Some pr \<Rightarrow>
          i\<lparr>parentReference := Some (pr\<lparr>path_relative := map_option (drop 80) (path pr)\<rparr>)\<rparr>)"

text \<open>The last relevant record with the id \<open>k\<close> in a sequence of records.\<close>

definition last_relevant :: "config \<Rightarrow> string \<Rightarrow> item list \<Rightarrow> item option" where
  "last_relevant cfg k xs = find (\<lambda>i. item_id i = k \<and> spec_relevant cfg i) (rev xs)"

subsection \<open>Concrete feeds and environments\<close>

definition world0 :: world where
  "world0 = \<lparr>trace = [], files = Map.empty, bucket = Map.empty\<rparr>"

text \<open>An environment in which nothing raises, serving the feed \<open>f\<close>.\<close>

definition quiet :: "(string \<Rightarrow> page) \<Rightarrow> env" where
  "quiet f =
     \<lparr>feed = f, page_fault = (\<lambda>t u. None), content = (\<lambda>u. ''data''),
      content_fault = (\<lambda>t u. None), token_resp = (\<lambda>t. Inr ''tok''),
      write_fault = (\<lambda>t p. None), remove_fault = (\<lambda>t p. None), s3_fault = (\<lambda>t k. None)\<rparr>"

definition no_page :: page where
  "no_page = \<lparr>page_value = None, nextLink = None, deltaLink = None\<rparr>"

definition cfg0 :: config where
  "cfg0 = \<lparr>target_folder = ''Invoices'', target_driveID = ''b!drive'', driveId_prod = ''b!drive''\<rparr>"

definition mk_item :: "string \<Rightarrow> string \<Rightarrow> string option \<Rightarrow> bool \<Rightarrow> item" where
  "mk_item k n p f =
     \<lparr>item_id = k, name = n,
      parentReference = Some \<lparr>driveId = ''b!drive'', path = p, path_relative = None\<rparr>,
      has_file = f\<rparr>"

text \<open>A parent path of 80 characters up to the drive's root, then \<^verbatim>\<open>/Reports/Q1\<close>.\<close>

definition q1_path :: string where
  "q1_path = ''/drives/b!drive'' @ replicate 59 (CHR ''0'') @ ''/root:'' @ ''/Reports/Q1''"

text \<open>
  Four records: the target folder itself under a path that does not mention the drive
  id, a file under the drive, a record whose parent reference has no path, and a record
  that is neither the folder nor under the drive.
\<close>

definition rec_folder :: item where
  "rec_folder = mk_item ''F'' ''Invoices'' (Some ''/elsewhere'') False"

definition rec_file :: item where
  "rec_file = mk_item ''A'' ''a.pdf'' (Some q1_path) True"



text \<open>A record without the key \<^verbatim>\<open>parentReference\<close>.\<close>

definition rec_bare :: item where
  "rec_bare = \<lparr>item_id = ''B'', name = ''b.txt'', parentReference = None, has_file = True\<rparr>"

text \<open>The URL the page walk starts from when no delta link is saved, for \<^const>\<open>cfg0\<close>.\<close>

definition start_url0 :: string where
  "start_url0 = ''https://graph.microsoft.com/v1.0/drives/b!drive/root/delta''"

text \<open>A feed of two pages whose second page has a record without a parent reference.\<close>

definition feed_bare :: "string \<Rightarrow> page" where
  "feed_bare u =
     (if u = start_url0 then
        \<lparr>page_value = Some [rec_file], nextLink = Some ''page2'', deltaLink = None\<rparr>
      else if u = ''page2'' then
        \<lparr>page_value = Some [rec_folder, rec_bare], nextLink = None, deltaLink = Some ''delta1''\<rparr>
      else no_page)"

text \<open>
  The file \<^const>\<open>rec_file\<close> again, once renamed in place and once moved to another
  drive, and two feeds of two pages that end with the one and with the other.
\<close>

definition rec_renamed :: item where
  "rec_renamed = mk_item ''A'' ''a-v2.pdf'' (Some q1_path) True"

definition rec_moved :: item where
  "rec_moved = mk_item ''A'' ''a.pdf'' (Some ''/drives/other/root:/Archive'') True"

definition feed_renamed :: "string \<Rightarrow> page" where
  "feed_renamed u =
     (if u = start_url0 then
        \<lparr>page_value = Some [rec_file, rec_folder], nextLink = Some ''page2'', deltaLink = None\<rparr>
      else if u = ''page2'' then
        \<lparr>page_value = Some [rec_renamed], nextLink = None, deltaLink = Some ''delta1''\<rparr>
      else no_page)"

definition feed_moved :: "string \<Rightarrow> page" where
  "feed_moved u =
     (if u = start_url0 then
        \<lparr>page_value = Some [rec_file], nextLink = Some ''page2'', deltaLink = None\<rparr>
      else if u = ''page2'' then
        \<lparr>page_value = Some [rec_moved], nextLink = None, deltaLink = Some ''delta1''\<rparr>
      else no_page)"

text \<open>A feed whose first page has no records and a next link.\<close>

definition feed_empty_first :: "string \<Rightarrow> page" where
  "feed_empty_first u =
     (if u = start_url0 then
        \<lparr>page_value = Some [], nextLink = Some ''page2'', deltaLink = None\<rparr>
      else if u = ''page2'' then
        \<lparr>page_value = Some [rec_file], nextLink = None, deltaLink = Some ''delta1''\<rparr>
      else no_page)"

text \<open>
  Two environments in which the first request of all raises: an \<open>HTTPError\<close> in the
  one, a connection error in the other.
\<close>

definition env_http :: env where
  "env_http =
     (quiet feed_renamed)\<lparr>page_fault := (\<lambda>t u. if t = 0 then Some (HTTPError ''401'') else None)\<rparr>"

definition env_conn :: env where
  "env_conn =
     (quiet feed_renamed)
       \<lparr>page_fault := (\<lambda>t u. if t = 0 then Some (OtherError ''ConnectionError'') else None)\<rparr>"

text \<open>
  The world after a page request that raised an \<open>HTTPError\<close> and was made once more:
  two requests with the same headers, and the two printed lines between them.
\<close>

definition retried :: "string \<Rightarrow> string \<Rightarrow> exn \<Rightarrow> world \<Rightarrow> world" where
  "retried url headers e w =
     w\<lparr>trace := trace w @
          [GetPage url headers, Print query_error_line, PrintExn e, GetPage url headers]\<rparr>"

text \<open>The world after the start of a run that found no saved delta link in the bucket.\<close>

definition started :: "world \<Rightarrow> world" where
  "started w =
     w\<lparr>trace := trace w @
          [Print ''Script has started.'', TokenRequest,
           S3Download ''/tmp/deltaLink.json'' ''deltaLink.json'',
           Print (s3_error_line ''download'' ''/tmp/deltaLink.json''),
           PrintExn (OtherError ''ClientError'')]\<rparr>"

text \<open>
  An environment in which the first page request of a run from \<^const>\<open>world0\<close> (the
  sixth event) and its repetition (the ninth) both raise an \<open>HTTPError\<close>.
\<close>

definition env_twice :: env where
  "env_twice =
     (quiet feed_renamed)
       \<lparr>page_fault := (\<lambda>t u. if t = 5 \<or> t = 8 then Some (HTTPError ''401'') else None)\<rparr>"

text \<open>The events of the world \<open>w'\<close> that came after those of \<open>w\<close>.\<close>

definition since :: "world \<Rightarrow> world \<Rightarrow> event list" where
  "since w w' = drop (length (trace w)) (trace w')"

text \<open>
  The events the cleanup of lines 85 to 90 can leave: both removals, both removals and the
  failure of the second printed, or the first removal and its failure printed.
\<close>

definition cleanup_events :: "string \<Rightarrow> event list \<Rightarrow> bool" where
  "cleanup_events lp es \<longleftrightarrow>
     es = [RemoveFile lp, RemoveFile (lp @ ''.json'')] \<or>
     (\<exists>e. es = [RemoveFile lp, RemoveFile (lp @ ''.json''), Print remove_error_line, PrintExn e]) \<or>
     (\<exists>e. es = [RemoveFile lp, Print remove_error_line, PrintExn e])"


text \<open>A second file under the drive, and a feed of one page with both files.\<close>

definition rec_second :: item where
  "rec_second = mk_item ''G'' ''g.pdf'' (Some q1_path) True"

definition feed_two :: "string \<Rightarrow> page" where
  "feed_two u =
     (if u = start_url0 then
        \<lparr>page_value = Some [rec_file, rec_second], nextLink = None, deltaLink = Some ''delta1''\<rparr>
      else no_page)"




text \<open>
  No content request was made between the worlds \<open>w\<close> and \<open>w'\<close>: the transfer of
  a record begins with its content request.
\<close>

definition no_content :: "world \<Rightarrow> world \<Rightarrow> bool" where
  "no_content w w' \<longleftrightarrow> (\<forall>u t. GetContent u t \<in> set (trace w') \<longrightarrow> GetContent u t \<in> set (trace w))"

text \<open>An environment in which every upload of the delta link raises.\<close>

definition env_noupload :: env where
  "env_noupload =
     (quiet feed_two)
       \<lparr>s3_fault :=
          (\<lambda>t k. if k = ''deltaLink.json'' then Some (OtherError ''S3UploadFailedError'') else None)\<rparr>"

section \<open>Properties\<close>

subsection \<open>The loop over the records of a page\<close>

lemma gather_record_cases:
  "gather_record cfg i ca =
     (if parentReference i = None then Inl (KeyError ''parentReference'')
      else if spec_relevant cfg i then Inr (AList.update (item_id i) (with_relative i) ca)
      else Inr ca)"
  by (auto simp: gather_record_def spec_relevant_def with_relative_def split: option.splits)

lemma gather_records_append:
  "gather_records cfg (xs @ ys) ca =
     (case gather_records cfg xs ca of Inl e \<Rightarrow> Inl e | Inr ca' \<Rightarrow> gather_records cfg ys ca')"
  by (induction xs arbitrary: ca) (auto split: sum.splits)

lemma gather_records_KeyError:
  "i \<in> set xs \<Longrightarrow> parentReference i = None \<Longrightarrow>
   gather_records cfg xs ca = Inl (KeyError ''parentReference'')"
  by (induction xs arbitrary: ca)
     (auto simp: gather_record_cases split: sum.splits if_splits)


lemma find_append_cases:
  "find P (xs @ ys) = (case find P xs of None \<Rightarrow> find P ys | Some x \<Rightarrow> Some x)"
  by (induction xs) auto

lemma gather_records_distinct:
  "gather_records cfg xs ca = Inr ca' \<Longrightarrow> distinct (map fst ca) \<Longrightarrow> distinct (map fst ca')"
  by (induction xs arbitrary: ca)
     (auto simp: gather_record_cases distinct_update split: sum.splits if_splits)

lemma gather_records_lookup:
  "gather_records cfg xs ca = Inr ca' \<Longrightarrow>
   map_of ca' k =
     (case last_relevant cfg k xs of None \<Rightarrow> map_of ca k | Some i \<Rightarrow> Some (with_relative i))"
proof (induction xs arbitrary: ca)
  case Nil
  then show ?case by (simp add: last_relevant_def)
next
  case (Cons i xs)
  then show ?case
    by (auto simp: gather_record_cases last_relevant_def update_conv find_append_cases
             split: sum.splits if_splits option.splits)
qed






subsection \<open>An unknown action of \<^verbatim>\<open>s3_ops\<close>\<close>

text \<open>
  C10. A call of \<^verbatim>\<open>s3_ops\<close> whose action is neither \<^verbatim>\<open>upload\<close> nor
  \<^verbatim>\<open>download\<close> performs no operation on the bucket or on the local files, prints
  the success line and returns \<^verbatim>\<open>True\<close>: the world changes by that one line
  only.
\<close>

theorem s3_ops_unknown_action:
  "action \<noteq> ''upload'' \<Longrightarrow> action \<noteq> ''download'' \<Longrightarrow>
   s3_ops en filename_local filename_s3 action w =
     (True, w\<lparr>trace := trace w @ [Print (s3_success_line action filename_local)]\<rparr>)"
  by (simp add: s3_ops_def emit_def)

theorem s3_ops_unknown_action_witness:
  "''delete'' \<noteq> ''upload'' \<and> ''delete'' \<noteq> ''download'' \<and>
   s3_ops (quiet (\<lambda>u. no_page)) ''/tmp/a'' ''a'' ''delete'' world0 =
     (True, world0\<lparr>trace := trace world0 @ [Print (s3_success_line ''delete'' ''/tmp/a'')]\<rparr>)"
  using s3_ops_unknown_action [of "''delete''" "quiet (\<lambda>u. no_page)" "''/tmp/a''" "''a''" world0]
  by simp

subsection \<open>The world and the calls of the page walk\<close>

lemma emit_simps [simp]:
  "trace (emit e w) = trace w @ [e]" "files (emit e w) = files w" "bucket (emit e w) = bucket w"
  "now (emit e w) = Suc (now w)"
  by (simp_all add: emit_def now_def)

lemma get_page_world: "snd (get_page en url h w) = emit (GetPage url h) w"
  by (simp add: get_page_def split: option.splits)

lemma fetch_page_frame:
  assumes "fetch_page en url h w = (r, w1)"
  shows "files w1 = files w" and "bucket w1 = bucket w" and "prefix (trace w) (trace w1)"
  using assms
  by (auto simp: fetch_page_def get_page_def prefix_def split: option.splits exn.splits sum.splits prod.splits)

lemma fetch_page_feed:
  "fetch_page en url h w = (Inr p, w1) \<Longrightarrow> p = feed en url"
  by (auto simp: fetch_page_def get_page_def split: option.splits exn.splits sum.splits prod.splits)

lemma next_call_Some:
  "next_call en cfg url h ca w = Some (nu, ca1, w1) \<longleftrightarrow>
     (\<exists>p rs. fetch_page en url h w = (Inr p, w1) \<and> page_value p = Some rs \<and> rs \<noteq> [] \<and>
        gather_records cfg rs ca = Inr ca1 \<and> nextLink p = Some nu)"
  by (auto simp: next_call_def split: prod.splits sum.splits option.splits if_splits)

lemma next_call_frame:
  assumes "next_call en cfg url h ca w = Some (nu, ca1, w1)"
  shows "files w1 = files w" and "bucket w1 = bucket w" and "prefix (trace w) (trace w1)"
  using assms fetch_page_frame [of en url h w _ w1] by (auto simp: next_call_Some)

text \<open>What a call does once its own page is dealt with and the nested call, if any, has returned.\<close>

lemma delta_gather_next:
  assumes "next_call en cfg url h ca w = Some (nu, ca1, w1)"
  shows "delta_gather (Suc d) en cfg url h ca w =
     (case delta_gather d en cfg nu h ca1 w1 of
        (Inl e, w2) \<Rightarrow> (Inl e, w2)
      | (Inr ca2, w2) \<Rightarrow>
          (case deltaLink (feed en url) of
             None \<Rightarrow> (Inr ca2, w2)
           | Some dl \<Rightarrow>
               (case save_deltaLink en dl w2 of
                  (Inl e, w3) \<Rightarrow> (Inl e, w3)
                | (Inr u, w3) \<Rightarrow> (Inr ca2, w3))))"
proof -
  from assms obtain p rs where
    f: "fetch_page en url h w = (Inr p, w1)" and v: "page_value p = Some rs" "rs \<noteq> []" and
    g: "gather_records cfg rs ca = Inr ca1" and n: "nextLink p = Some nu"
    by (auto simp: next_call_Some)
  from fetch_page_feed [OF f] have p: "p = feed en url" .
  show ?thesis using f v g n p by simp
qed

lemma walk_Suc_cases:
  assumes "c \<in> set (walk (Suc d) en cfg url h ca w)"
  obtains (self) "c = (Suc d, url, ca, w)"
  | (nested) nu ca1 w1 where "next_call en cfg url h ca w = Some (nu, ca1, w1)"
        "c \<in> set (walk d en cfg nu h ca1 w1)"
  using assms by (cases "next_call en cfg url h ca w") auto

lemma walk_frame:
  "(d', u', ca', w') \<in> set (walk d en cfg url h ca w) \<Longrightarrow>
   files w' = files w \<and> bucket w' = bucket w \<and> prefix (trace w) (trace w')"
proof (induction d arbitrary: url ca w)
  case 0
  then show ?case by simp
next
  case (Suc d)
  from Suc.prems show ?case
  proof (cases rule: walk_Suc_cases)
    case self
    then show ?thesis by simp
  next
    case (nested nu ca1 w1)
    from Suc.IH [OF nested(2)] next_call_frame [OF nested(1)]
    show ?thesis by (auto intro: prefix_order.trans)
  qed
qed

lemma walk_raise:
  "(d', u', ca', w') \<in> set (walk d en cfg url h ca w) \<Longrightarrow>
   delta_gather d' en cfg u' h ca' w' = (Inl e, w'') \<Longrightarrow>
   delta_gather d en cfg url h ca w = (Inl e, w'')"
proof (induction d arbitrary: url ca w)
  case 0
  then show ?case by simp
next
  case (Suc d)
  from Suc.prems(1) show ?case
  proof (cases rule: walk_Suc_cases)
    case self
    then show ?thesis using Suc.prems(2) by simp
  next
    case (nested nu ca1 w1)
    from Suc.IH [OF nested(2) Suc.prems(2)]
    show ?thesis by (simp only: delta_gather_next [OF nested(1)]) simp
  qed
qed

lemma main_raise:
  assumes "startup en cfg w00 = (Inr (h, url0), w0)"
    and "delta_gather depth en cfg url0 h [] w0 = (Inl e, w')"
  shows "main depth en cfg w00 = (Inl e, w')"
  using assms by (simp add: main_def)

lemma delta_gather_KeyError:
  assumes "fetch_page en url h w = (Inr p, w1)" "page_value p = Some records"
    "i \<in> set records" "parentReference i = None"
  shows "delta_gather (Suc d) en cfg url h ca w = (Inl (KeyError ''parentReference''), w1)"
proof -
  from assms(3) have "records \<noteq> []" by auto
  with assms gather_records_KeyError [OF assms(3,4), of cfg ca] show ?thesis by simp
qed

lemma fetch_page_quiet:
  "fetch_page (quiet f) url h w = (Inr (f url), emit (GetPage url h) w)"
  by (simp add: fetch_page_def get_page_def quiet_def)

lemma startup_quiet_empty:
  "bucket w = Map.empty \<Longrightarrow>
   \<exists>w0. startup (quiet f) cfg0 w = (Inr (bearer ''tok'', start_url0), w0)"
  by (simp add: startup_def token_gains_def load_deltaLink_def s3_ops_def download_file_def
        quiet_def cfg0_def start_url0_def)

text \<open>
  C9. A record without the key \<^verbatim>\<open>parentReference\<close> aborts the run: when any
  call of the page walk that \<^verbatim>\<open>main\<close> starts fetches a page holding such a
  record, \<^verbatim>\<open>main\<close> ends with the \<open>KeyError\<close>, in the world right after that
  fetch; the record is not skipped and nothing further is done.
\<close>

theorem missing_parentReference_aborts:
  assumes "startup en cfg w00 = (Inr (headers, url0), w0)"
    and "(Suc d, url, ca, w) \<in> set (walk depth en cfg url0 headers [] w0)"
    and "fetch_page en url headers w = (Inr p, w1)"
    and "page_value p = Some records"
    and "i \<in> set records"
    and "parentReference i = None"
  shows "main depth en cfg w00 = (Inl (KeyError ''parentReference''), w1)"
  by (rule main_raise [OF assms(1) walk_raise [OF assms(2) delta_gather_KeyError [OF assms(3-6)]]])


theorem missing_parentReference_aborts_witness:
  "rec_bare \<in> set [rec_folder, rec_bare] \<and> parentReference rec_bare = None \<and>
   fst (main 5 (quiet feed_bare) cfg0 world0) = Inl (KeyError ''parentReference'')"
proof -
  obtain w0 where s: "startup (quiet feed_bare) cfg0 world0 = (Inr (bearer ''tok'', start_url0), w0)"
    using startup_quiet_empty [of world0 feed_bare] by (auto simp: world0_def)
  define w1 where "w1 = emit (GetPage start_url0 (bearer ''tok'')) w0"
  have rel: "spec_relevant cfg0 rec_file"
    by (simp add: spec_relevant_def cfg0_def rec_file_def mk_item_def q1_path_def sublist_code prefix_code)
  have n: "next_call (quiet feed_bare) cfg0 start_url0 (bearer ''tok'') [] w0 =
      Some (''page2'', [(item_id rec_file, with_relative rec_file)], w1)"
    by (simp add: next_call_Some fetch_page_quiet w1_def feed_bare_def gather_record_cases rel)
       (simp add: rec_file_def mk_item_def)
  have "(Suc 3, ''page2'', [(item_id rec_file, with_relative rec_file)], w1) \<in>
      set (walk (Suc (Suc 3)) (quiet feed_bare) cfg0 start_url0 (bearer ''tok'') [] w0)"
    by (simp only: walk.simps n option.case prod.case) simp
  also have "Suc (Suc 3) = (5::nat)" by simp
  finally have m: "(Suc 3, ''page2'', [(item_id rec_file, with_relative rec_file)], w1) \<in>
      set (walk 5 (quiet feed_bare) cfg0 start_url0 (bearer ''tok'') [] w0)" .
  have f: "fetch_page (quiet feed_bare) ''page2'' (bearer ''tok'') w1 =
      (Inr (feed_bare ''page2''), emit (GetPage ''page2'' (bearer ''tok'')) w1)"
    by (rule fetch_page_quiet)
  have v: "page_value (feed_bare ''page2'') = Some [rec_folder, rec_bare]"
    by (simp add: feed_bare_def start_url0_def)
  have i: "rec_bare \<in> set [rec_folder, rec_bare]" by simp
  have b: "parentReference rec_bare = None" by (simp add: rec_bare_def)
  from missing_parentReference_aborts [OF s m f v i b] i b show ?thesis
    by simp
qed


subsection \<open>The dictionary after the page walk\<close>

lemma delta_gather_traversed:
  "delta_gather d en cfg url h ca w = (Inr ca', w') \<Longrightarrow>
   gather_records cfg (traversed d en cfg url h ca w) ca = Inr ca'"
proof (induction d arbitrary: url ca w ca' w')
  case 0
  then show ?case by simp
next
  case (Suc d)
  show ?case
  proof (cases "next_call en cfg url h ca w")
    case None
    with Suc.prems show ?thesis
      by (auto simp: next_call_def split: prod.splits sum.splits option.splits if_splits)
  next
    case (Some c)
    then obtain nu ca1 w1 where n: "next_call en cfg url h ca w = Some (nu, ca1, w1)"
      by (cases c) auto
    then obtain p rs where
      f: "fetch_page en url h w = (Inr p, w1)" and v: "page_value p = Some rs" "rs \<noteq> []" and
      g: "gather_records cfg rs ca = Inr ca1"
      by (auto simp: next_call_Some)
    from Suc.prems obtain w2 where "delta_gather d en cfg nu h ca1 w1 = (Inr ca', w2)"
      unfolding delta_gather_next [OF n]
      by (auto split: prod.splits sum.splits option.splits)
    from Suc.IH [OF this] have "gather_records cfg (traversed d en cfg nu h ca1 w1) ca1 = Inr ca'" .
    then show ?thesis using f v g n by (simp add: gather_records_append)
  qed
qed

text \<open>
  C3, as the code has it. The dictionary a page walk returns has one entry per id at
  most, and the entry of an id is the last record with that id, in the order the pages
  were read, that passes the relevance filter, with its relative path added; an id none
  of whose records passes the filter has no entry.
\<close>

theorem last_relevant_occurrence_wins:
  assumes "delta_gather depth en cfg url headers [] w = (Inr ca', w')"
  shows "distinct (map fst ca') \<and>
         map_of ca' k =
           map_option with_relative (last_relevant cfg k (traversed depth en cfg url headers [] w))"
proof -
  from delta_gather_traversed [OF assms]
  have g: "gather_records cfg (traversed depth en cfg url headers [] w) [] = Inr ca'" .
  from gather_records_distinct [OF g] gather_records_lookup [OF g, of k]
  show ?thesis by (auto split: option.splits)
qed

theorem last_relevant_occurrence_wins_witness:
  "fst (delta_gather 5 (quiet feed_renamed) cfg0 start_url0 ''h'' [] world0) =
     Inr [(''A'', with_relative rec_renamed), (''F'', with_relative rec_folder)] \<and>
   distinct (map fst [(''A'', with_relative rec_renamed), (''F'', with_relative rec_folder)]) \<and>
   map_of [(''A'', with_relative rec_renamed), (''F'', with_relative rec_folder)] ''A'' =
     map_option with_relative
       (last_relevant cfg0 ''A'' (traversed 5 (quiet feed_renamed) cfg0 start_url0 ''h'' [] world0))"
proof -
  have "fst (delta_gather 5 (quiet feed_renamed) cfg0 start_url0 ''h'' [] world0) =
     Inr [(''A'', with_relative rec_renamed), (''F'', with_relative rec_folder)]"
    by code_simp
  then obtain w' where dg: "delta_gather 5 (quiet feed_renamed) cfg0 start_url0 ''h'' [] world0 =
     (Inr [(''A'', with_relative rec_renamed), (''F'', with_relative rec_folder)], w')"
    by (cases "delta_gather 5 (quiet feed_renamed) cfg0 start_url0 ''h'' [] world0") simp
  from last_relevant_occurrence_wins [OF dg, of "''A''"] dg show ?thesis
    by (simp del: delta_gather.simps traversed.simps)
qed

text \<open>
  C3, as stated, fails when the last record of an id does not pass the filter: the file
  \<open>A\<close> is read on the first page, and again on the second page after it was moved
  to another drive; the dictionary keeps the first record, not the last.
\<close>

theorem last_occurrence_counterexample:
  "traversed 5 (quiet feed_moved) cfg0 start_url0 ''h'' [] world0 = [rec_file, rec_moved] \<and>
   item_id rec_moved = item_id rec_file \<and>
   fst (delta_gather 5 (quiet feed_moved) cfg0 start_url0 ''h'' [] world0) =
     Inr [(''A'', with_relative rec_file)] \<and>
   with_relative rec_file \<noteq> rec_moved \<and>
   with_relative rec_file \<noteq> with_relative rec_moved"
  by code_simp


subsection \<open>A page without records\<close>

text \<open>
  C1, on a feed whose first page has no records but a next link. The comment above
  \<^verbatim>\<open>delta_gather\<close> says the next link is followed until a delta link is returned;
  the recursive call is inside \<^verbatim>\<open>if len(delta_resp['value'])>0\<close>, so on this
  feed the first page is the only one requested, the run ends as a success, and no delta
  link is saved.
\<close>

theorem empty_page_stops_walk:
  "page_value (feed_empty_first start_url0) = Some [] \<and>
   nextLink (feed_empty_first start_url0) = Some ''page2'' \<and>
   fst (main 5 (quiet feed_empty_first) cfg0 world0) = Inr () \<and>
   trace (snd (main 5 (quiet feed_empty_first) cfg0 world0)) =
     [Print ''Script has started.'', TokenRequest,
      S3Download ''/tmp/deltaLink.json'' ''deltaLink.json'',
      Print (s3_error_line ''download'' ''/tmp/deltaLink.json''),
      PrintExn (OtherError ''ClientError''),
      GetPage start_url0 (bearer ''tok''),
      Print ''Script exited successfully.''] \<and>
   bucket (snd (main 5 (quiet feed_empty_first) cfg0 world0)) ''deltaLink.json'' = None"
  by code_simp


subsection \<open>A page request that raises\<close>

lemma os_remove_bucket: "bucket (snd (os_remove en p w)) = bucket w"
  by (simp add: os_remove_def split: option.splits)

lemma s3_ops_download_bucket: "bucket (snd (s3_ops en l k ''download'' w)) = bucket w"
  by (simp add: s3_ops_def download_file_def split: option.splits)

lemma load_deltaLink_bucket: "bucket (snd (load_deltaLink en u w)) = bucket w"
proof -
  have a: "bucket (snd (s3_ops en ''/tmp/deltaLink.json'' ''deltaLink.json'' ''download'' w)) = bucket w"
    by (rule s3_ops_download_bucket)
  show ?thesis
    using a os_remove_bucket [of en "''/tmp/deltaLink.json''"]
    by (auto simp: load_deltaLink_def split: prod.splits bool.splits option.splits sum.splits)
       (metis snd_conv)+
qed

lemma startup_bucket:
  assumes "startup en cfg w = (r, w')"
  shows "bucket w' = bucket w"
proof (cases "token_resp en (Suc (now w))")
  case (Inl e)
  with assms show ?thesis by (auto simp: startup_def token_gains_def)
next
  case (Inr tok)
  let ?w1 = "emit TokenRequest (emit (Print ''Script has started.'') w)"
  let ?u = "''https://graph.microsoft.com/v1.0/drives/'' @ driveId_prod cfg @ ''/root/delta''"
  obtain u2 w2 where l: "load_deltaLink en ?u ?w1 = (u2, w2)"
    by (cases "load_deltaLink en ?u ?w1")
  from load_deltaLink_bucket [of en ?u ?w1] l have "bucket w2 = bucket w" by simp
  with assms Inr l show ?thesis by (auto simp: startup_def token_gains_def)
qed

lemma fetch_page_HTTPError:
  assumes "page_fault en (now w) url = Some (HTTPError m)"
  shows "fetch_page en url h w =
     ((case page_fault en (now w + 3) url of Some e \<Rightarrow> Inl e | None \<Rightarrow> Inr (feed en url)),
      retried url h (HTTPError m) w)"
  using assms
  by (simp add: fetch_page_def get_page_def retried_def emit_def now_def numeral_3_eq_3 split: option.splits)

lemma fetch_page_other:
  assumes "page_fault en (now w) url = Some e" "\<forall>m. e \<noteq> HTTPError m"
  shows "fetch_page en url h w = (Inl e, emit (GetPage url h) w)"
  using assms
  by (cases e) (simp_all add: fetch_page_def get_page_def)

lemma delta_gather_fetch_fails:
  "fetch_page en url h w = (Inl e, w1) \<Longrightarrow> delta_gather (Suc d) en cfg url h ca w = (Inl e, w1)"
  by simp

lemma startup_fresh:
  assumes "bucket w ''deltaLink.json'' = None" "token_resp en (Suc (now w)) = Inr tok"
  shows "startup en cfg w =
     (Inr (bearer tok, ''https://graph.microsoft.com/v1.0/drives/'' @ driveId_prod cfg @ ''/root/delta''),
      started w)"
  using assms
  by (simp add: startup_def token_gains_def load_deltaLink_def s3_ops_def download_file_def)
     (simp add: started_def emit_def)

lemma walk_head: "(d, url, ca, w) \<in> set (walk d en cfg url h ca w)"
  by (cases d) simp_all

text \<open>
  C4, as the code has it. When the first request of a page (by any call of the page walk
  that \<^verbatim>\<open>main\<close> starts) raises an \<open>HTTPError\<close>, the page is requested exactly
  once more, with the same headers and without a new token (\<^const>\<open>retried\<close> lists
  the events); when the second request raises too, the run ends with that exception in
  that world. When the first request raises anything else, the run ends at once with
  it, after the one request. In both cases the bucket is as it was when the run began:
  no delta link has been saved.
\<close>

theorem page_fetch_retried_once:
  assumes start: "startup en cfg w00 = (Inr (headers, url0), w0)"
    and call: "(Suc d, url, ca, w) \<in> set (walk depth en cfg url0 headers [] w0)"
    and fault: "page_fault en (now w) url = Some e"
  shows "if \<exists>m. e = HTTPError m then
           snd (fetch_page en url headers w) = retried url headers e w \<and>
           bucket (retried url headers e w) = bucket w00 \<and>
           (\<forall>e2. page_fault en (now w + 3) url = Some e2 \<longrightarrow>
              main depth en cfg w00 = (Inl e2, retried url headers e w))
         else
           main depth en cfg w00 = (Inl e, emit (GetPage url headers) w) \<and>
           bucket (emit (GetPage url headers) w) = bucket w00"
proof -
  from walk_frame [OF call] startup_bucket [OF start] have b: "bucket w = bucket w00" by simp
  show ?thesis
  proof (cases "\<exists>m. e = HTTPError m")
    case True
    then obtain m where e: "e = HTTPError m" ..
    note f = fetch_page_HTTPError [OF fault [unfolded e], of headers]
    have "main depth en cfg w00 = (Inl e2, retried url headers e w)"
      if "page_fault en (now w + 3) url = Some e2" for e2
    proof -
      from f that have "fetch_page en url headers w = (Inl e2, retried url headers e w)"
        by (simp add: e)
      from main_raise [OF start walk_raise [OF call delta_gather_fetch_fails [OF this]]]
      show ?thesis .
    qed
    with True f b show ?thesis by (simp add: e retried_def)
  next
    case False
    then have "\<forall>m. e \<noteq> HTTPError m" by simp
    from main_raise [OF start walk_raise [OF call delta_gather_fetch_fails [OF fetch_page_other [OF fault this]]]]
    show ?thesis using False b by simp
  qed
qed


theorem page_fetch_retried_once_witness:
  "page_fault env_twice 5 start_url0 = Some (HTTPError ''401'') \<and>
   page_fault env_twice 8 start_url0 = Some (HTTPError ''401'') \<and>
   fst (main 5 env_twice cfg0 world0) = Inl (HTTPError ''401'') \<and>
   trace (snd (main 5 env_twice cfg0 world0)) =
     trace (started world0) @
     [GetPage start_url0 (bearer ''tok''), Print query_error_line, PrintExn (HTTPError ''401''),
      GetPage start_url0 (bearer ''tok'')] \<and>
   bucket (snd (main 5 env_twice cfg0 world0)) = bucket world0"
proof -
  have s: "startup env_twice cfg0 world0 = (Inr (bearer ''tok'', start_url0), started world0)"
    using startup_fresh [of world0 env_twice "''tok''" cfg0]
    by (simp add: world0_def env_twice_def quiet_def cfg0_def start_url0_def)
  have c: "(Suc 4, start_url0, [], started world0) \<in>
      set (walk 5 env_twice cfg0 start_url0 (bearer ''tok'') [] (started world0))"
    using walk_head [of 5 start_url0 "[]" "started world0" env_twice cfg0 "bearer ''tok''"]
    by simp
  have n: "now (started world0) = 5" by (simp add: now_def started_def world0_def)
  have f1: "page_fault env_twice (now (started world0)) start_url0 = Some (HTTPError ''401'')"
    and f2: "page_fault env_twice (now (started world0) + 3) start_url0 = Some (HTTPError ''401'')"
    by (simp_all add: n) (simp_all add: env_twice_def)
  from page_fetch_retried_once [OF s c f1] f2
  have "main 5 env_twice cfg0 world0 =
      (Inl (HTTPError ''401''), retried start_url0 (bearer ''tok'') (HTTPError ''401'') (started world0))"
    and "bucket (retried start_url0 (bearer ''tok'') (HTTPError ''401'') (started world0)) = bucket world0"
    by simp_all
  then show ?thesis using f1 f2 by (simp add: n retried_def)
qed


text \<open>
  C4, as stated, fails on both counts: after an \<open>HTTPError\<close> the second request is made
  without any token request (and the walk goes on to the second page), and after a
  connection error there is no second request.
\<close>

theorem page_retry_counterexample:
  "take 5 (trace (snd (delta_gather 5 env_http cfg0 start_url0 ''h'' [] world0))) =
     [GetPage start_url0 ''h'', Print query_error_line, PrintExn (HTTPError ''401''),
      GetPage start_url0 ''h'', GetPage ''page2'' ''h''] \<and>
   TokenRequest \<notin> set (trace (snd (delta_gather 5 env_http cfg0 start_url0 ''h'' [] world0))) \<and>
   fst (delta_gather 5 env_conn cfg0 start_url0 ''h'' [] world0) =
     Inl (OtherError ''ConnectionError'') \<and>
   trace (snd (delta_gather 5 env_conn cfg0 start_url0 ''h'' [] world0)) =
     [GetPage start_url0 ''h'']"
  by code_simp


subsection \<open>The transfer of one record\<close>


lemma get_content_trace:
  "get_content en u h w = (r, w1) \<Longrightarrow> trace w1 = trace w @ [GetContent u h]"
  by (auto simp: get_content_def split: option.splits)

lemma token_gains_trace:
  "token_gains en w = (r, w1) \<Longrightarrow> trace w1 = trace w @ [TokenRequest]"
  by (auto simp: token_gains_def)

lemma fetch_content_trace:
  assumes "fetch_content en h m u w = (r, w1)"
  shows "\<exists>es. trace w1 = trace w @ GetContent u h # es"
  using assms
  by (auto simp: fetch_content_def get_content_def token_gains_def Let_def
           split: option.splits sum.splits prod.splits)


lemma s3_ops_upload_trace:
  "\<exists>es. trace (snd (s3_ops en l k ''upload'' w)) = trace w @ S3Upload l k # es"
  by (simp add: s3_ops_def upload_file_def split: option.splits)

lemma stage_trace: "\<exists>es. trace (stage en lp c m w) = trace w @ es"
  by (simp add: stage_def write_file_def split: option.splits)

lemma cleanup_trace: "\<exists>es. trace (cleanup en lp w) = trace w @ es \<and> cleanup_events lp es"
  by (auto simp: cleanup_def os_remove_def cleanup_events_def split: option.splits)

lemma onedrive_download_fetched:
  assumes pr: "parentReference m = Some pr" and rel: "path_relative pr = Some rel"
    and f: "fetch_content en h m (content_url m (driveId pr)) w = (Inr c, w1)"
  shows "\<exists>w' es1 es2 es3 es4 es5.
      onedrive_download en h m w = (Inr (), w') \<and>
      trace w' =
        trace w @ GetContent (content_url m (driveId pr)) h # es1 @ es2 @
        S3Upload (''/tmp/'' @ name m) (rel @ ''/'' @ name m) # es3 @
        S3Upload (''/tmp/'' @ name m @ ''.json'') (rel @ ''/'' @ name m @ ''.json'') # es4 @ es5 \<and>
      cleanup_events (''/tmp/'' @ name m) es5"
proof -
  let ?lp = "''/tmp/'' @ name m"
  let ?key = "rel @ ''/'' @ name m"
  from fetch_content_trace [OF f] obtain es1 where
    t1: "trace w1 = trace w @ GetContent (content_url m (driveId pr)) h # es1" ..
  define w2 where "w2 = stage en ?lp c m w1"
  from stage_trace [of en ?lp c m w1] obtain es2 where t2: "trace w2 = trace w1 @ es2"
    unfolding w2_def ..
  define w3 where "w3 = snd (s3_ops en ?lp ?key ''upload'' w2)"
  from s3_ops_upload_trace [of en ?lp ?key w2] obtain es3 where
    t3: "trace w3 = trace w2 @ S3Upload ?lp ?key # es3" unfolding w3_def ..
  define w4 where "w4 = snd (s3_ops en (?lp @ ''.json'') (?key @ ''.json'') ''upload'' w3)"
  from s3_ops_upload_trace [of en "?lp @ ''.json''" "?key @ ''.json''" w3] obtain es4 where
    t4: "trace w4 = trace w3 @ S3Upload (?lp @ ''.json'') (?key @ ''.json'') # es4"
    unfolding w4_def ..
  from cleanup_trace [of en ?lp w4] obtain es5 where
    t5: "trace (cleanup en ?lp w4) = trace w4 @ es5" and c5: "cleanup_events ?lp es5" by blast
  have r: "onedrive_download en h m w = (Inr (), cleanup en ?lp w4)"
    using pr rel f by (simp add: onedrive_download_def Let_def w2_def w3_def w4_def)
  have t: "trace (cleanup en ?lp w4) =
        trace w @ GetContent (content_url m (driveId pr)) h # es1 @ es2 @
        S3Upload ?lp ?key # es3 @
        S3Upload (''/tmp/'' @ name m @ ''.json'') (rel @ ''/'' @ name m @ ''.json'') # es4 @ es5"
    using t1 t2 t3 t4 t5 by simp
  from r t c5 show ?thesis by blast
qed












lemma fetch_content_quiet:
  "fetch_content (quiet f) h m u w = (Inr ''data'', emit (GetContent u h) w)"
  by (simp add: fetch_content_def get_content_def quiet_def)



text \<open>
  C6. For a record that passes the filter, with parent path \<open>p\<close>, the entry stored
  under its id is the record with \<^verbatim>\<open>path_relative\<close> set to \<open>p\<close> without its first
  80 characters, and the uploads of that entry use the keys
  \<^verbatim>\<open>path_relative + '/' + name\<close> and the same with \<^verbatim>\<open>.json\<close>.
\<close>

theorem relative_path_derivation:
  assumes pr: "parentReference i = Some pr" and p: "path pr = Some p"
    and rel: "name i = target_folder cfg \<or> sublist (target_driveID cfg) p"
  shows "\<exists>e. gather_record cfg i ca = Inr (AList.update (item_id i) e ca) \<and>
           map_of (AList.update (item_id i) e ca) (item_id i) = Some e \<and>
           parentReference e = Some (pr\<lparr>path_relative := Some (drop 80 p)\<rparr>) \<and>
           (\<forall>en headers w c w1.
              fetch_content en headers e (content_url e (driveId pr)) w = (Inr c, w1) \<longrightarrow>
              (\<exists>w'. onedrive_download en headers e w = (Inr (), w') \<and>
                 S3Upload (''/tmp/'' @ name i) (drop 80 p @ ''/'' @ name i) \<in> set (since w w') \<and>
                 S3Upload (''/tmp/'' @ name i @ ''.json'') (drop 80 p @ ''/'' @ name i @ ''.json'')
                   \<in> set (since w w')))"
proof -
  let ?pr = "pr\<lparr>path_relative := Some (drop 80 p)\<rparr>"
  let ?e = "i\<lparr>parentReference := Some ?pr\<rparr>"
  have g: "gather_record cfg i ca = Inr (AList.update (item_id i) ?e ca)"
    using pr p rel by (simp add: gather_record_def)
  have m: "map_of (AList.update (item_id i) ?e ca) (item_id i) = Some ?e"
    by (simp add: update_conv)
  have u: "\<exists>w'. onedrive_download en headers ?e w = (Inr (), w') \<and>
                 S3Upload (''/tmp/'' @ name i) (drop 80 p @ ''/'' @ name i) \<in> set (since w w') \<and>
                 S3Upload (''/tmp/'' @ name i @ ''.json'') (drop 80 p @ ''/'' @ name i @ ''.json'')
                   \<in> set (since w w')"
    if f: "fetch_content en headers ?e (content_url ?e (driveId pr)) w = (Inr c, w1)"
    for en headers w c w1
  proof -
    have a: "parentReference ?e = Some ?pr" and b: "path_relative ?pr = Some (drop 80 p)"
      and d: "driveId ?pr = driveId pr" by simp_all
    from onedrive_download_fetched [OF a b f [folded d]]
    show ?thesis by (auto simp: since_def)
  qed
  from g m u show ?thesis by (intro exI [of _ ?e]) auto
qed

theorem relative_path_derivation_witness:
  "drop 80 q1_path = ''/Reports/Q1'' \<and>
   gather_record cfg0 rec_file [] = Inr [(''A'', with_relative rec_file)] \<and>
   path_relative (the (parentReference (with_relative rec_file))) = Some ''/Reports/Q1'' \<and>
   S3Upload ''/tmp/a.pdf'' ''/Reports/Q1/a.pdf'' \<in>
     set (since world0 (snd (onedrive_download (quiet feed_two) ''h'' (with_relative rec_file) world0)))"
proof -
  have pr: "parentReference rec_file =
      Some \<lparr>driveId = ''b!drive'', path = Some q1_path, path_relative = None\<rparr>"
    by (simp add: rec_file_def mk_item_def)
  have p: "path \<lparr>driveId = ''b!drive'', path = Some q1_path, path_relative = None\<rparr> = Some q1_path"
    by simp
  have rel: "name rec_file = target_folder cfg0 \<or> sublist (target_driveID cfg0) q1_path"
    by code_simp
  have d: "drop 80 q1_path = ''/Reports/Q1''" by code_simp
  have n: "name rec_file = ''a.pdf''" "item_id rec_file = ''A''"
    by (simp_all add: rec_file_def mk_item_def)
  from relative_path_derivation [OF pr p rel, of "[]"] obtain e where
    g: "gather_record cfg0 rec_file [] = Inr (AList.update (item_id rec_file) e [])" and
    r: "parentReference e = Some (\<lparr>driveId = ''b!drive'', path = Some q1_path, path_relative = None\<rparr>
          \<lparr>path_relative := Some (drop 80 q1_path)\<rparr>)" and
    u: "\<And>en headers w c w1.
          fetch_content en headers e (content_url e (driveId \<lparr>driveId = ''b!drive'', path = Some q1_path, path_relative = None\<rparr>)) w = (Inr c, w1) \<Longrightarrow>
          \<exists>w'. onedrive_download en headers e w = (Inr (), w') \<and>
               S3Upload (''/tmp/'' @ name rec_file) (drop 80 q1_path @ ''/'' @ name rec_file)
                 \<in> set (since w w')"
    by blast
  have "gather_record cfg0 rec_file [] = Inr [(''A'', with_relative rec_file)]" by code_simp
  with g have e: "e = with_relative rec_file" by (simp add: n)
  from u [OF fetch_content_quiet, of feed_two "''h''" world0]
  have "S3Upload ''/tmp/a.pdf'' ''/Reports/Q1/a.pdf'' \<in>
     set (since world0 (snd (onedrive_download (quiet feed_two) ''h'' (with_relative rec_file) world0)))"
    by (auto simp: e n d)
  moreover have "path_relative (the (parentReference (with_relative rec_file))) = Some ''/Reports/Q1''"
    using r by (simp add: e [symmetric] d)
  ultimately show ?thesis using d g by (simp add: e n)
qed

subsection \<open>Saving the delta link\<close>

lemma now_update [simp]:
  "now (w\<lparr>files := f\<rparr>) = now w" "now (w\<lparr>bucket := b\<rparr>) = now w"
  by (simp_all add: now_def)

lemma no_content_refl: "no_content w w"
  by (simp add: no_content_def)

lemma no_content_trans: "no_content a b \<Longrightarrow> no_content b c \<Longrightarrow> no_content a c"
  by (simp add: no_content_def)

lemma fetch_page_no_content:
  "fetch_page en url h w = (r, w1) \<Longrightarrow> no_content w w1"
  by (auto simp: fetch_page_def get_page_def no_content_def
           split: option.splits exn.splits sum.splits prod.splits)

lemma save_deltaLink_no_content:
  "save_deltaLink en d w = (r, w1) \<Longrightarrow> no_content w w1"
  by (auto simp: save_deltaLink_def write_file_def s3_ops_def upload_file_def os_remove_def
        no_content_def split: option.splits sum.splits prod.splits bool.splits if_splits)

lemma save_deltaLink_ok:
  assumes "write_fault en (now w) ''/tmp/deltaLink.json'' = None"
    and "s3_fault en (Suc (now w)) ''deltaLink.json'' = None"
  shows "\<exists>w'. save_deltaLink en d w = (Inr (), w') \<and>
           bucket w' = (bucket w)(''deltaLink.json'' \<mapsto> CursorJson d)"
  using assms
  by (simp add: save_deltaLink_def write_file_def s3_ops_def upload_file_def os_remove_def
        split: option.splits)

lemma delta_gather_no_content:
  "delta_gather d en cfg url h ca w = (r, w') \<Longrightarrow> no_content w w'"
proof (induction d arbitrary: url ca w r w')
  case 0
  then show ?case by (simp add: no_content_refl)
next
  case (Suc d)
  obtain r1 w1 where f: "fetch_page en url h w = (r1, w1)" by (cases "fetch_page en url h w")
  note nf = fetch_page_no_content [OF f]
  show ?case
  proof (cases "next_call en cfg url h ca w")
    case (Some c)
    then obtain nu ca1 w1' where n: "next_call en cfg url h ca w = Some (nu, ca1, w1')"
      by (cases c) auto
    with f have w1: "w1' = w1" by (auto simp: next_call_Some)
    obtain r2 w2 where i: "delta_gather d en cfg nu h ca1 w1 = (r2, w2)"
      by (cases "delta_gather d en cfg nu h ca1 w1")
    from Suc.IH [OF i] nf have a: "no_content w w2" by (rule no_content_trans [rotated])
    from Suc.prems a show ?thesis
      unfolding delta_gather_next [OF n] w1 i
      by (auto split: sum.splits option.splits prod.splits
               dest: save_deltaLink_no_content intro: no_content_trans [OF a])
  next
    case None
    with Suc.prems f nf show ?thesis
      by (auto simp: next_call_def split: sum.splits option.splits prod.splits if_splits
               dest: save_deltaLink_no_content intro: no_content_trans)
  qed
qed

lemma startup_no_content:
  assumes "startup en cfg w = (r, w')"
  shows "no_content w w'"
  using assms
  by (auto simp: startup_def token_gains_def load_deltaLink_def s3_ops_def download_file_def
        os_remove_def no_content_def Let_def
        split: sum.splits prod.splits option.splits bool.splits if_splits)

lemma next_call_nextLink:
  "next_call en cfg url h ca w = Some (nu, ca1, w1) \<Longrightarrow> nextLink (feed en url) = Some nu"
  using fetch_page_feed [of en url h w] by (auto simp: next_call_Some)

lemma walk_result:
  assumes one: "\<forall>u. nextLink (feed en u) \<noteq> None \<longrightarrow> deltaLink (feed en u) = None"
  shows "(d', u', ca', w') \<in> set (walk d en cfg url h ca w) \<Longrightarrow>
         delta_gather d' en cfg u' h ca' w' = (Inr ca2, w2) \<Longrightarrow>
         delta_gather d en cfg url h ca w = (Inr ca2, w2)"
proof (induction d arbitrary: url ca w)
  case 0
  then show ?case by simp
next
  case (Suc d)
  from Suc.prems(1) show ?case
  proof (cases rule: walk_Suc_cases)
    case self
    then show ?thesis using Suc.prems(2) by simp
  next
    case (nested nu ca1 w1)
    from next_call_nextLink [OF nested(1)] one have "deltaLink (feed en url) = None" by simp
    with Suc.IH [OF nested(2) Suc.prems(2)]
    show ?thesis by (simp only: delta_gather_next [OF nested(1)]) simp
  qed
qed

lemma delta_gather_last_page:
  assumes "fetch_page en url h w = (Inr p, w1)" "page_value p = Some records" "records \<noteq> []"
    "gather_records cfg records ca = Inr ca'" "nextLink p = None" "deltaLink p = Some dl"
  shows "delta_gather (Suc d) en cfg url h ca w =
     (case save_deltaLink en dl w1 of (Inl e, w3) \<Rightarrow> (Inl e, w3) | (Inr u, w3) \<Rightarrow> (Inr ca', w3))"
  using assms by simp

lemma delta_gather_leaf:
  assumes "next_call en cfg url h ca w = None" "deltaLink (feed en url) = None"
  shows "snd (delta_gather (Suc d) en cfg url h ca w) = snd (fetch_page en url h w)"
proof (cases "fetch_page en url h w")
  case (Pair r w1)
  show ?thesis
  proof (cases r)
    case (Inl e)
    with Pair show ?thesis by simp
  next
    case (Inr p)
    from fetch_page_feed [OF Pair [unfolded Inr]] assms(2) have "deltaLink p = None" by simp
    with assms(1) Pair Inr show ?thesis
      by (auto simp: next_call_def split: option.splits sum.splits if_splits)
  qed
qed

lemma delta_gather_no_deltaLink:
  "\<forall>(d', u, ca', w') \<in> set (walk d en cfg url h ca w). deltaLink (feed en u) = None \<Longrightarrow>
   bucket (snd (delta_gather d en cfg url h ca w)) = bucket w"
proof (induction d arbitrary: url ca w)
  case 0
  then show ?case by simp
next
  case (Suc d)
  from Suc.prems walk_head [of "Suc d" url ca w en cfg h]
  have own: "deltaLink (feed en url) = None" by blast
  show ?case
  proof (cases "next_call en cfg url h ca w")
    case None
    obtain r w1 where f: "fetch_page en url h w = (r, w1)" by (cases "fetch_page en url h w")
    from delta_gather_leaf [OF None own, of d] fetch_page_frame(2) [OF f] f
    show ?thesis by simp
  next
    case (Some c)
    then obtain nu ca1 w1 where n: "next_call en cfg url h ca w = Some (nu, ca1, w1)"
      by (cases c) auto
    from Suc.prems n
    have "\<forall>(d', u, ca', w') \<in> set (walk d en cfg nu h ca1 w1). deltaLink (feed en u) = None"
      by auto
    from Suc.IH [OF this] next_call_frame(2) [OF n]
    have "bucket (snd (delta_gather d en cfg nu h ca1 w1)) = bucket w" by simp
    then show ?thesis
      unfolding delta_gather_next [OF n]
      by (auto simp: own split: prod.splits sum.splits)
  qed
qed

lemma slash_key: "CHR ''/'' \<in> set k \<Longrightarrow> k \<noteq> ''deltaLink.json''"
  by auto

lemma s3_ops_upload_other:
  "k \<noteq> k' \<Longrightarrow> bucket (snd (s3_ops en l k ''upload'' w)) k' = bucket w k'"
  by (simp add: s3_ops_def upload_file_def split: option.splits)

lemma s3_ops_upload_cursor:
  "CHR ''/'' \<in> set k \<Longrightarrow>
   bucket (snd (s3_ops en l k ''upload'' w)) ''deltaLink.json'' = bucket w ''deltaLink.json''"
  by (rule s3_ops_upload_other) auto

lemma fetch_content_bucket:
  "fetch_content en h m u w = (r, w1) \<Longrightarrow> bucket w1 = bucket w"
  by (auto simp: fetch_content_def get_content_def token_gains_def Let_def
           split: option.splits sum.splits prod.splits)

lemma stage_bucket: "bucket (stage en lp c m w) = bucket w"
  by (simp add: stage_def write_file_def split: option.splits)

lemma cleanup_bucket: "bucket (cleanup en lp w) = bucket w"
  by (simp add: cleanup_def os_remove_def split: option.splits)

lemma onedrive_download_cursor:
  "bucket (snd (onedrive_download en h m w)) ''deltaLink.json'' = bucket w ''deltaLink.json''"
proof (cases "parentReference m")
  case None
  then show ?thesis by (simp add: onedrive_download_def)
next
  case (Some pr)
  obtain r w1 where f: "fetch_content en h m (content_url m (driveId pr)) w = (r, w1)"
    by (cases "fetch_content en h m (content_url m (driveId pr)) w")
  note b1 = fetch_content_bucket [OF f]
  show ?thesis
  proof (cases r)
    case (Inl e)
    with Some f b1 show ?thesis by (simp add: onedrive_download_def)
  next
    case (Inr c)
    show ?thesis
    proof (cases "path_relative pr")
      case None
      with Some f Inr b1 show ?thesis by (simp add: onedrive_download_def Let_def stage_bucket)
    next
      case (Some rel)
      from \<open>parentReference m = Some pr\<close> Some f Inr b1 show ?thesis
        by (simp add: onedrive_download_def Let_def cleanup_bucket s3_ops_upload_cursor
              stage_bucket)
    qed
  qed
qed

lemma transfer_all_cursor:
  "bucket (snd (transfer_all en h ca w)) ''deltaLink.json'' = bucket w ''deltaLink.json''"
proof (induction ca arbitrary: w)
  case Nil
  then show ?case by simp
next
  case (Cons kv ca)
  obtain k v where kv: "kv = (k, v)" by (cases kv)
  obtain r w1 where d: "onedrive_download en h v w = (r, w1)"
    by (cases "onedrive_download en h v w")
  from onedrive_download_cursor [of en h v w] d
  have b: "bucket w1 ''deltaLink.json'' = bucket w ''deltaLink.json''" by simp
  show ?case using kv d b Cons.IH [of w] Cons.IH [of w1]
    by (cases r) auto
qed

lemma main_after_walk:
  assumes "startup en cfg w00 = (Inr (h, url0), w0)"
    and "delta_gather depth en cfg url0 h [] w0 = (Inr ca, w3)"
  shows "main depth en cfg w00 =
     (case transfer_all en h ca w3 of
        (Inl e, w4) \<Rightarrow> (Inl e, w4)
      | (Inr u, w4) \<Rightarrow> (Inr (), emit (Print ''Script exited successfully.'') w4))"
  using assms by (simp add: main_def)

lemma main_cursor:
  assumes "startup en cfg w00 = (Inr (h, url0), w0)"
  shows "bucket (snd (main depth en cfg w00)) ''deltaLink.json'' =
         bucket (snd (delta_gather depth en cfg url0 h [] w0)) ''deltaLink.json''"
proof (cases "delta_gather depth en cfg url0 h [] w0")
  case (Pair r w3)
  show ?thesis
  proof (cases r)
    case (Inl e)
    with Pair main_raise [OF assms, of depth e w3] show ?thesis by simp
  next
    case (Inr ca)
    obtain r4 w4 where t: "transfer_all en h ca w3 = (r4, w4)"
      by (cases "transfer_all en h ca w3")
    from transfer_all_cursor [of en h ca w3] t
    have "bucket w4 ''deltaLink.json'' = bucket w3 ''deltaLink.json''" by simp
    with main_after_walk [OF assms Pair [unfolded Inr]] t Pair show ?thesis
      by (cases r4) auto
  qed
qed

text \<open>
  C2, as the code has it, for a feed whose pages carry a next link or a delta link, not
  both. When a call of the page walk that \<^verbatim>\<open>main\<close> starts fetches a page with
  records, no next link and a delta link, and the write of the scratch file and the
  upload that follow do not raise, then the walk returns, the bucket holds that delta
  link under \<^verbatim>\<open>deltaLink.json\<close> when it returns, no content request has been made
  by then, \<^verbatim>\<open>main\<close> goes on with the transfers from that world, and the bucket
  still holds the delta link when \<^verbatim>\<open>main\<close> ends. And when no call of the walk
  is on a page with a delta link, the object \<^verbatim>\<open>deltaLink.json\<close> of the bucket is
  after the run what it was before.
\<close>

theorem cursor_saved_before_transfers:
  assumes start: "startup en cfg w00 = (Inr (headers, url0), w0)"
  shows "((\<forall>u. nextLink (feed en u) \<noteq> None \<longrightarrow> deltaLink (feed en u) = None) \<and>
          (Suc d, url, ca, w) \<in> set (walk depth en cfg url0 headers [] w0) \<and>
          fetch_page en url headers w = (Inr p, w1) \<and>
          page_value p = Some records \<and> records \<noteq> [] \<and>
          gather_records cfg records ca = Inr ca' \<and>
          nextLink p = None \<and> deltaLink p = Some dl \<and>
          write_fault en (now w1) ''/tmp/deltaLink.json'' = None \<and>
          s3_fault en (Suc (now w1)) ''deltaLink.json'' = None \<longrightarrow>
          (\<exists>w3. delta_gather depth en cfg url0 headers [] w0 = (Inr ca', w3) \<and>
                bucket w3 ''deltaLink.json'' = Some (CursorJson dl) \<and>
                no_content w00 w3 \<and>
                main depth en cfg w00 =
                  (case transfer_all en headers ca' w3 of
                     (Inl e, w4) \<Rightarrow> (Inl e, w4)
                   | (Inr u, w4) \<Rightarrow> (Inr (), emit (Print ''Script exited successfully.'') w4)) \<and>
                bucket (snd (main depth en cfg w00)) ''deltaLink.json'' = Some (CursorJson dl))) \<and>
         ((\<forall>(d', u, ca', w') \<in> set (walk depth en cfg url0 headers [] w0).
              deltaLink (feed en u) = None) \<longrightarrow>
          bucket (snd (main depth en cfg w00)) ''deltaLink.json'' = bucket w00 ''deltaLink.json'')"
proof (intro conjI impI)
  assume a: "(\<forall>u. nextLink (feed en u) \<noteq> None \<longrightarrow> deltaLink (feed en u) = None) \<and>
          (Suc d, url, ca, w) \<in> set (walk depth en cfg url0 headers [] w0) \<and>
          fetch_page en url headers w = (Inr p, w1) \<and>
          page_value p = Some records \<and> records \<noteq> [] \<and>
          gather_records cfg records ca = Inr ca' \<and>
          nextLink p = None \<and> deltaLink p = Some dl \<and>
          write_fault en (now w1) ''/tmp/deltaLink.json'' = None \<and>
          s3_fault en (Suc (now w1)) ''deltaLink.json'' = None"
  then have one: "\<forall>u. nextLink (feed en u) \<noteq> None \<longrightarrow> deltaLink (feed en u) = None"
    and call: "(Suc d, url, ca, w) \<in> set (walk depth en cfg url0 headers [] w0)"
    and f: "fetch_page en url headers w = (Inr p, w1)"
    and v: "page_value p = Some records" "records \<noteq> []"
    and g: "gather_records cfg records ca = Inr ca'"
    and l: "nextLink p = None" "deltaLink p = Some dl"
    and ok: "write_fault en (now w1) ''/tmp/deltaLink.json'' = None"
            "s3_fault en (Suc (now w1)) ''deltaLink.json'' = None"
    by simp_all
  from save_deltaLink_ok [OF ok, of dl] obtain w3 where
    s: "save_deltaLink en dl w1 = (Inr (), w3)" and
    b: "bucket w3 = (bucket w1)(''deltaLink.json'' \<mapsto> CursorJson dl)" by blast
  have "delta_gather (Suc d) en cfg url headers ca w = (Inr ca', w3)"
    by (simp only: delta_gather_last_page [OF f v g l] s) simp
  from walk_result [OF one call this]
  have dg: "delta_gather depth en cfg url0 headers [] w0 = (Inr ca', w3)" .
  from startup_no_content [OF start] delta_gather_no_content [OF dg]
  have nc: "no_content w00 w3" by (rule no_content_trans)
  from main_cursor [OF start, of depth] dg b
  have mc: "bucket (snd (main depth en cfg w00)) ''deltaLink.json'' = Some (CursorJson dl)"
    by simp
  from dg b nc main_after_walk [OF start dg] mc
  show "\<exists>w3. delta_gather depth en cfg url0 headers [] w0 = (Inr ca', w3) \<and>
                bucket w3 ''deltaLink.json'' = Some (CursorJson dl) \<and>
                no_content w00 w3 \<and>
                main depth en cfg w00 =
                  (case transfer_all en headers ca' w3 of
                     (Inl e, w4) \<Rightarrow> (Inl e, w4)
                   | (Inr u, w4) \<Rightarrow> (Inr (), emit (Print ''Script exited successfully.'') w4)) \<and>
                bucket (snd (main depth en cfg w00)) ''deltaLink.json'' = Some (CursorJson dl)"
    by (intro exI [of _ w3]) simp
next
  assume "\<forall>(d', u, ca', w') \<in> set (walk depth en cfg url0 headers [] w0).
              deltaLink (feed en u) = None"
  from delta_gather_no_deltaLink [OF this] startup_bucket [OF start] main_cursor [OF start, of depth]
  show "bucket (snd (main depth en cfg w00)) ''deltaLink.json'' = bucket w00 ''deltaLink.json''"
    by simp
qed

lemma walk_leaf:
  "next_call en cfg url h ca w = None \<Longrightarrow> walk d en cfg url h ca w = [(d, url, ca, w)]"
  by (cases d) simp_all

text \<open>
  C2, as stated, fails when the upload of the delta link raises: \<^verbatim>\<open>s3_ops\<close> prints
  the exception and returns \<^verbatim>\<open>False\<close>, the walk returns its dictionary, and the
  run goes on to the transfers with no delta link in the bucket.
\<close>

theorem cursor_upload_failure_counterexample:
  "page_value (feed_two start_url0) = Some [rec_file, rec_second] \<and>
   nextLink (feed_two start_url0) = None \<and>
   deltaLink (feed_two start_url0) = Some ''delta1'' \<and>
   fst (delta_gather 5 env_noupload cfg0 start_url0 (bearer ''tok'') [] (started world0)) =
     Inr [(''A'', with_relative rec_file), (''G'', with_relative rec_second)] \<and>
   drop 5 (trace (snd (delta_gather 5 env_noupload cfg0 start_url0 (bearer ''tok'') []
                        (started world0)))) =
     [GetPage start_url0 (bearer ''tok''),
      WriteFile ''/tmp/deltaLink.json'',
      S3Upload ''/tmp/deltaLink.json'' ''deltaLink.json'',
      Print (s3_error_line ''upload'' ''/tmp/deltaLink.json''),
      PrintExn (OtherError ''S3UploadFailedError'')] \<and>
   bucket (snd (main 5 env_noupload cfg0 world0)) ''deltaLink.json'' = None"
proof -
  have s: "startup env_noupload cfg0 world0 = (Inr (bearer ''tok'', start_url0), started world0)"
    using startup_fresh [of world0 env_noupload "''tok''" cfg0]
    by (simp add: world0_def env_noupload_def quiet_def cfg0_def start_url0_def)
  have "bucket (snd (delta_gather 5 env_noupload cfg0 start_url0 (bearer ''tok'') []
                       (started world0))) ''deltaLink.json'' = None"
    by code_simp
  with main_cursor [OF s, of 5]
  have "bucket (snd (main 5 env_noupload cfg0 world0)) ''deltaLink.json'' = None" by simp
  moreover have "page_value (feed_two start_url0) = Some [rec_file, rec_second] \<and>
   nextLink (feed_two start_url0) = None \<and>
   deltaLink (feed_two start_url0) = Some ''delta1'' \<and>
   fst (delta_gather 5 env_noupload cfg0 start_url0 (bearer ''tok'') [] (started world0)) =
     Inr [(''A'', with_relative rec_file), (''G'', with_relative rec_second)] \<and>
   drop 5 (trace (snd (delta_gather 5 env_noupload cfg0 start_url0 (bearer ''tok'') []
                        (started world0)))) =
     [GetPage start_url0 (bearer ''tok''),
      WriteFile ''/tmp/deltaLink.json'',
      S3Upload ''/tmp/deltaLink.json'' ''deltaLink.json'',
      Print (s3_error_line ''upload'' ''/tmp/deltaLink.json''),
      PrintExn (OtherError ''S3UploadFailedError'')]"
    by code_simp
  ultimately show ?thesis by blast
qed

theorem cursor_saved_before_transfers_witness:
  "bucket (snd (main 5 (quiet feed_two) cfg0 world0)) ''deltaLink.json'' =
     Some (CursorJson ''delta1'') \<and>
   bucket (snd (main 5 (quiet feed_empty_first) cfg0 world0)) ''deltaLink.json'' =
     bucket world0 ''deltaLink.json''"
proof -
  let ?h = "bearer ''tok''"
  let ?w0 = "started world0"
  have s: "startup (quiet f) cfg0 world0 = (Inr (?h, start_url0), ?w0)" for f
    using startup_fresh [of world0 "quiet f" "''tok''" cfg0]
    by (simp add: world0_def quiet_def cfg0_def start_url0_def)
  have c: "(Suc 4, start_url0, [], ?w0) \<in> set (walk 5 (quiet f) cfg0 start_url0 ?h [] ?w0)" for f
    using walk_head [of 5 start_url0 "[]" ?w0 "quiet f" cfg0 ?h] by simp
  have rel: "spec_relevant cfg0 rec_file" "spec_relevant cfg0 rec_second"
    by code_simp+
  have g: "gather_records cfg0 [rec_file, rec_second] [] =
      Inr [(''A'', with_relative rec_file), (''G'', with_relative rec_second)]"
    by code_simp
  have p: "page_value (feed_two start_url0) = Some [rec_file, rec_second]"
    "nextLink (feed_two start_url0) = None" "deltaLink (feed_two start_url0) = Some ''delta1''"
    by (simp_all add: feed_two_def)
  have one: "\<forall>u. nextLink (feed (quiet feed_two) u) \<noteq> None \<longrightarrow>
      deltaLink (feed (quiet feed_two) u) = None"
    by (simp add: quiet_def feed_two_def no_page_def)
  have q: "write_fault (quiet feed_two) t x = None" "s3_fault (quiet feed_two) t x = None" for t x
    by (simp_all add: quiet_def)
  from cursor_saved_before_transfers [OF s [of feed_two], THEN conjunct1, rule_format,
    of 4 start_url0 "[]" ?w0 5 "feed_two start_url0" "emit (GetPage start_url0 ?h) ?w0"
       "[rec_file, rec_second]" "[(''A'', with_relative rec_file), (''G'', with_relative rec_second)]"
       "''delta1''"]
    one c [of feed_two] fetch_page_quiet [of feed_two start_url0 ?h ?w0] p g q
  have first: "bucket (snd (main 5 (quiet feed_two) cfg0 world0)) ''deltaLink.json'' =
     Some (CursorJson ''delta1'')"
    by auto
  have "next_call (quiet feed_empty_first) cfg0 start_url0 ?h [] ?w0 = None"
    by (simp add: next_call_def fetch_page_quiet feed_empty_first_def)
  then have w: "walk 5 (quiet feed_empty_first) cfg0 start_url0 ?h [] ?w0 = [(5, start_url0, [], ?w0)]"
    by (rule walk_leaf)
  have "\<forall>(d', u, ca', w') \<in> set (walk 5 (quiet feed_empty_first) cfg0 start_url0 ?h [] ?w0).
      deltaLink (feed (quiet feed_empty_first) u) = None"
    unfolding w by (simp add: quiet_def feed_empty_first_def)
  with cursor_saved_before_transfers [OF s [of feed_empty_first], THEN conjunct2, of 5]
  have "bucket (snd (main 5 (quiet feed_empty_first) cfg0 world0)) ''deltaLink.json'' =
     bucket world0 ''deltaLink.json''"
    by blast
  with first show ?thesis by simp
qed

end
